theory Spec2Isabelle
  imports Complex_Main "HOL-Library.Signed_Division" "HOL-Library.Sublist"
begin

section \<open>Data model\<close>

text \<open>
  The two tables of \<^verbatim>\<open>backend/prisma/migrations/20251103051617_init/migration.sql\<close>.
  TEXT columns are strings, INTEGER columns are integers, a nullable column is an
  option, DATETIME columns are abstract clock ticks. The REAL column \<^verbatim>\<open>position\<close> (the
  ordering key) is a rational; the keys that the allocator hands out are those of its
  fixed-precision key space, defined with it below.
  The column \<^verbatim>\<open>id\<close> of each table is renamed (\<open>t_id\<close>, \<open>pt_id\<close>), \<open>id\<close> being the identity
  function of HOL.
\<close>

record Track =
  t_id :: string
  title :: string
  artist :: string
  album :: "string option"
  duration_seconds :: int
  genre :: "string option"
  cover_url :: "string option"
  createdAt :: nat
  updatedAt :: nat

record PlaylistTrack =
  pt_id :: string
  trackId :: string
  position :: rat
  votes :: int
  addedBy :: string
  addedAt :: nat
  isPlaying :: bool
  playedAt :: "nat option"

text \<open>
  A playlist entry as \<^verbatim>\<open>frontend/components/Playlist.jsx\<close> reads it from the API: the
  fields the component touches are \<^verbatim>\<open>id\<close>, \<^verbatim>\<open>position\<close>, \<^verbatim>\<open>votes\<close>, \<^verbatim>\<open>added_by\<close>,
  \<^verbatim>\<open>is_playing\<close> and the nested \<^verbatim>\<open>track\<close>.
\<close>

record item =
  item_id :: string
  item_position :: rat
  item_votes :: int
  added_by :: string
  is_playing :: bool
  track :: Track

section \<open>The Playlist component (frontend/components/Playlist.jsx)\<close>

text \<open>
  The props of the component: the server-confirmed \<^verbatim>\<open>playlist\<close> handed down by the
  parent, whether an \<^verbatim>\<open>onUpdate\<close> callback was passed, and \<^verbatim>\<open>currentPlayingId\<close>. The
  only state of the component is \<^verbatim>\<open>localPlaylist\<close>, an \<open>item list\<close>.
\<close>

record props =
  playlist :: "item list"
  onUpdate :: bool
  currentPlayingId :: "string option"

text \<open>The argument of \<^verbatim>\<open>onDragEnd\<close>: \<^verbatim>\<open>result.source.index\<close> and, when the item was
  dropped on the list, \<^verbatim>\<open>result.destination.index\<close>.\<close>

record DropResult =
  source_index :: nat
  destination_index :: "nat option"

text \<open>What a handler does besides returning: state updates, API requests, callbacks and
  log lines, in the order the handler performs them.\<close>

datatype direction = Up | Down

datatype effect =
    SetLocalPlaylist "item option list"
  | ApiUpdate string rat
  | ApiRemove string
  | ApiVote string direction
  | ApiSetPlaying string
  | OnUpdate
  | ConsoleError

text \<open>\<^verbatim>\<open>useState(playlist)\<close> and the effect \<^verbatim>\<open>useEffect(() => setLocalPlaylist(playlist),
  [playlist])\<close>: on mount and whenever the parent passes a new playlist, the local copy is
  replaced by it.\<close>

definition mount :: "props \<Rightarrow> item list" where
  "mount p = playlist p"

definition props_changed :: "props \<Rightarrow> item list \<Rightarrow> item list" where
  "props_changed p localPlaylist = playlist p"

text \<open>\<^verbatim>\<open>if (onUpdate) { onUpdate(); }\<close>\<close>

definition call_onUpdate :: "props \<Rightarrow> effect list" where
  "call_onUpdate p = (if onUpdate p then [OnUpdate] else [])"

text \<open>\<^verbatim>\<open>xs[i]\<close>: \<^verbatim>\<open>undefined\<close> out of range.\<close>

definition at_index :: "'a list \<Rightarrow> nat \<Rightarrow> 'a option" where
  "at_index xs i = (if i < length xs then Some (xs ! i) else None)"

text \<open>\<^verbatim>\<open>const [x] = xs.splice(i, 1)\<close>: the removed element (\<^verbatim>\<open>undefined\<close> when \<open>i\<close> is
  past the end, where nothing is removed) and the array that is left.\<close>

definition splice_out :: "nat \<Rightarrow> 'a list \<Rightarrow> 'a option \<times> 'a list" where
  "splice_out i xs =
     (if i < length xs then (Some (xs ! i), take i xs @ drop (Suc i) xs) else (None, xs))"

text \<open>\<^verbatim>\<open>xs.splice(i, 0, x)\<close>: insert at \<open>i\<close>, at the end when \<open>i\<close> is past it.\<close>

definition splice_in :: "nat \<Rightarrow> 'a \<Rightarrow> 'a list \<Rightarrow> 'a list" where
  "splice_in i x xs = take i xs @ x # drop i xs"

text \<open>\<^verbatim>\<open>it?.position || null\<close>: \<^verbatim>\<open>null\<close> when there is no item and also when the
  position is falsy. Of the falsy numbers only \<open>0\<close> exists among the rationals.\<close>

definition position_or_null :: "item option \<Rightarrow> rat option" where
  "position_or_null it =
     (case it of
        None \<Rightarrow> None
      | Some e \<Rightarrow> (if item_position e = 0 then None else Some (item_position e)))"

text \<open>The two neighbours of the dropped item in the reordered array.\<close>

definition prevItem :: "item list \<Rightarrow> nat \<Rightarrow> item option" where
  "prevItem items d = (if 0 < d then at_index items (d - 1) else None)"

definition nextItem :: "item list \<Rightarrow> nat \<Rightarrow> item option" where
  "nextItem items d = (if int d < int (length items) - 1 then at_index items (d + 1) else None)"

text \<open>
  \<^verbatim>\<open>onDragEnd\<close>. \<^verbatim>\<open>calculatePosition\<close> is imported from \<^verbatim>\<open>@/lib/position\<close>, which is
  not among the sources: it is the parameter \<open>calc\<close>, any function from two optional
  keys to a key. The outcome of the awaited request
  \<^verbatim>\<open>playlistApi.update\<close> is the parameter \<open>request_ok\<close>. The result is the final
  \<^verbatim>\<open>localPlaylist\<close> and the effects in order. An array handed to \<^verbatim>\<open>setLocalPlaylist\<close>
  is recorded as JavaScript has it, \<open>None\<close> standing for \<^verbatim>\<open>undefined\<close>.

  When \<^verbatim>\<open>source.index\<close> is past the end of the array, nothing is removed,
  \<^verbatim>\<open>reorderedItem\<close> is \<^verbatim>\<open>undefined\<close> and is inserted as such; \<^verbatim>\<open>reorderedItem.id\<close> then
  throws inside the \<^verbatim>\<open>try\<close> block before any request is made, and the \<^verbatim>\<open>catch\<close> block
  runs as for a failed request.
\<close>

definition onDragEnd ::
  "(rat option \<Rightarrow> rat option \<Rightarrow> rat) \<Rightarrow> bool \<Rightarrow> props \<Rightarrow> item list \<Rightarrow> DropResult
     \<Rightarrow> item list \<times> effect list" where
  "onDragEnd calc request_ok p localPlaylist result =
     (case destination_index result of
        None \<Rightarrow> (localPlaylist, [])
      | Some d \<Rightarrow>
          if source_index result = d then (localPlaylist, [])
          else
            let revert = [ConsoleError, SetLocalPlaylist (map Some (playlist p))] @ call_onUpdate p
            in
            (case splice_out (source_index result) localPlaylist of
               (None, rest) \<Rightarrow>
                 (playlist p, SetLocalPlaylist (splice_in d None (map Some rest)) # revert)
             | (Some reorderedItem, rest) \<Rightarrow>
                 let items = splice_in d reorderedItem rest;
                     newPosition = calc (position_or_null (prevItem items d))
                                        (position_or_null (nextItem items d));
                     request = [SetLocalPlaylist (map Some items),
                                ApiUpdate (item_id reorderedItem) newPosition]
                 in if request_ok
                    then (items, request @ call_onUpdate p)
                    else (playlist p, request @ revert)))"

text \<open>The requests among the effects of a handler.\<close>

fun is_request :: "effect \<Rightarrow> bool" where
  "is_request (ApiUpdate _ _) = True"
| "is_request (ApiRemove _) = True"
| "is_request (ApiVote _ _) = True"
| "is_request (ApiSetPlaying _) = True"
| "is_request _ = False"

text \<open>\<^verbatim>\<open>handleRemove\<close>, \<^verbatim>\<open>handleVote\<close> and \<^verbatim>\<open>handleSetPlaying\<close>: one request, then
  \<^verbatim>\<open>onUpdate\<close>; a failed request is logged. None of them sets the local playlist.\<close>

definition handleRemove :: "bool \<Rightarrow> props \<Rightarrow> item list \<Rightarrow> string \<Rightarrow> item list \<times> effect list" where
  "handleRemove request_ok p localPlaylist i =
     (localPlaylist, ApiRemove i # (if request_ok then call_onUpdate p else [ConsoleError]))"

definition handleVote ::
  "bool \<Rightarrow> props \<Rightarrow> item list \<Rightarrow> string \<Rightarrow> direction \<Rightarrow> item list \<times> effect list" where
  "handleVote request_ok p localPlaylist i dir =
     (localPlaylist, ApiVote i dir # (if request_ok then call_onUpdate p else [ConsoleError]))"

definition handleSetPlaying :: "bool \<Rightarrow> props \<Rightarrow> item list \<Rightarrow> string \<Rightarrow> item list \<times> effect list" where
  "handleSetPlaying request_ok p localPlaylist i =
     (localPlaylist, ApiSetPlaying i # (if request_ok then call_onUpdate p else [ConsoleError]))"

subsection \<open>Rendering\<close>

text \<open>A whole number in a template literal or under \<^verbatim>\<open>toString()\<close>: decimal digits,
  with a minus sign when negative (as JavaScript prints whole numbers of magnitude below
  \<open>10 ^ 21\<close>).\<close>

fun digits_of :: "nat \<Rightarrow> string" where
  "digits_of n =
     (if n < 10 then [char_of (48 + n)] else digits_of (n div 10) @ [char_of (48 + n mod 10)])"

declare digits_of.simps [simp del]

definition toString :: "int \<Rightarrow> string" where
  "toString k = (if k < 0 then CHR ''-'' # digits_of (nat (- k)) else digits_of (nat k))"

text \<open>\<^verbatim>\<open>s.padStart(2, '0')\<close>\<close>

definition padStart2 :: "string \<Rightarrow> string" where
  "padStart2 s = replicate (2 - length s) CHR ''0'' @ s"

text \<open>\<^verbatim>\<open>formatDuration\<close>, on a whole number of seconds: \<^verbatim>\<open>Math.floor(seconds / 60)\<close>
  rounds down, and \<^verbatim>\<open>%\<close> takes the sign of the dividend (\<open>smod\<close>). The remainder of
  doubles is exact; the quotient is rounded before \<^verbatim>\<open>Math.floor\<close>, which up to a magnitude
  of \<open>2 ^ 53\<close> never reaches the next whole number.\<close>

definition formatDuration :: "int \<Rightarrow> string" where
  "formatDuration seconds =
     (let mins = seconds div 60; secs = seconds smod 60
      in toString mins @ '':'' @ padStart2 (toString secs))"

text \<open>
  The durations are JavaScript numbers, that is doubles, with whole values (an INTEGER
  column). The sum of two of them is the exact sum rounded to the nearest double, a tie
  going to the even significand: a whole number of at most 53 bits is a double, and a
  longer one is rounded to 53 significant bits. The exponent range of doubles is not
  modelled (no sum of fewer than \<open>2 ^ 32\<close> numbers from a 64-bit column comes near it).
\<close>

fun bit_length :: "nat \<Rightarrow> nat" where
  "bit_length n = (if n = 0 then 0 else Suc (bit_length (n div 2)))"

declare bit_length.simps [simp del]

definition round_to_double :: "int \<Rightarrow> int" where
  "round_to_double x =
     (let n = nat \<bar>x\<bar>; len = bit_length n
      in if len \<le> 53 then x
         else
           let q = 2 ^ (len - 53); d = n div q; r = n mod q;
               d' = (if 2 * r < q then d
                     else if q < 2 * r then d + 1
                     else if even d then d else d + 1)
           in sgn x * int (d' * q))"

definition js_add :: "int \<Rightarrow> int \<Rightarrow> int" where
  "js_add a b = round_to_double (a + b)"

text \<open>\<^verbatim>\<open>localPlaylist.reduce((sum, item) => sum + item.track.duration_seconds, 0)\<close>,
  evaluated in the body of the component, that is at every render.\<close>

definition totalDuration :: "item list \<Rightarrow> int" where
  "totalDuration localPlaylist =
     foldl (\<lambda>sum it. js_add sum (duration_seconds (track it))) 0 localPlaylist"

text \<open>What a render shows of the state: the two numbers of the header line
  (\<^verbatim>\<open>{localPlaylist.length} tracks\<close> and \<^verbatim>\<open>{formatDuration(totalDuration)}\<close>) and the rows
  in order, each with its number, its item and whether it is highlighted as playing
  (\<^verbatim>\<open>item.is_playing || item.id === currentPlayingId\<close>).\<close>

record view =
  tracks_shown :: nat
  duration_shown :: string
  rows_shown :: "(nat \<times> item \<times> bool) list"

definition render :: "props \<Rightarrow> item list \<Rightarrow> view" where
  "render p localPlaylist =
     \<lparr> tracks_shown = length localPlaylist,
       duration_shown = formatDuration (totalDuration localPlaylist),
       rows_shown =
         map (\<lambda>(index, it). (index + 1, it, is_playing it \<or> currentPlayingId p = Some (item_id it)))
           (enumerate 0 localPlaylist) \<rparr>"




text \<open>Whether a key lies strictly between the positions of the neighbours the dropped
  item really has in the reordered array (a side without a neighbour bounds nothing).\<close>

definition between_neighbours :: "item list \<Rightarrow> nat \<Rightarrow> rat \<Rightarrow> bool" where
  "between_neighbours items d k =
     ((case prevItem items d of None \<Rightarrow> True | Some e \<Rightarrow> item_position e < k) \<and>
      (case nextItem items d of None \<Rightarrow> True | Some e \<Rightarrow> k < item_position e))"

text \<open>Sample data for the closed instances below.\<close>

definition sample_track :: "string \<Rightarrow> int \<Rightarrow> Track" where
  "sample_track i d =
     \<lparr> t_id = i, title = ''Title'', artist = ''Artist'', album = None, duration_seconds = d,
       genre = None, cover_url = None, createdAt = 0, updatedAt = 0 \<rparr>"

definition sample_item :: "string \<Rightarrow> rat \<Rightarrow> int \<Rightarrow> item" where
  "sample_item i k d =
     \<lparr> item_id = i, item_position = k, item_votes = 0, added_by = ''Anonymous'',
       is_playing = False, track = sample_track i d \<rparr>"

definition sample_props :: "item list \<Rightarrow> props" where
  "sample_props xs = \<lparr> playlist = xs, onUpdate = True, currentPlayingId = None \<rparr>"

section \<open>PositionAllocator\<close>

text \<open>The failures of the error taxonomy, and the constraint violation of the
  persistence layer.\<close>

datatype error =
    NotFound
  | DuplicateTrack
  | PositionExhausted
  | ConstraintViolation
  | TransportFailure
  | ReconnectExhausted

text \<open>
  Modelled from the spec: the key space of the allocator, which the spec leaves to the
  implementer (section 9: a fixed-precision key space with a documented exhaustion
  threshold). Keys are fixed-point numbers with \<open>key_precision\<close> binary places: the
  rationals that are a whole number of quanta \<open>1 / 2 ^ key_precision\<close>. The precision is
  52 places, the spacing of JavaScript numbers between 1 and 2. The lower bound is 0. The
  default key and the unit step are 1, as in the test scripts of the repository, which add
  the \<open>i\<close>-th track (from 0) at \<^verbatim>\<open>position: i + 1.0\<close>.
\<close>

definition key_precision :: nat where
  "key_precision = 52"

definition is_key :: "rat \<Rightarrow> bool" where
  "is_key k = (of_int \<lfloor>k * 2 ^ key_precision\<rfloor> = k * 2 ^ key_precision)"

definition lower_bound :: rat where
  "lower_bound = 0"

definition default_key :: rat where
  "default_key = 1"

definition key_unit :: rat where
  "key_unit = 1"

text \<open>
  Modelled from the spec: \<^verbatim>\<open>allocate(prev, next)\<close> of PositionAllocator, which the client
  imports as \<^verbatim>\<open>calculatePosition\<close> from \<^verbatim>\<open>@/lib/position\<close>; that file is not among the
  sources. Both absent: the fixed default. Only \<open>next\<close>: half the distance to the lower
  bound if that is a key below \<open>next\<close>, otherwise \<open>next\<close> minus one unit. Only \<open>prev\<close>: a key
  above it, by one unit. Both present: the arithmetic midpoint. The allocator never
  rounds: when the midpoint is not a key strictly between the two (the two are equal or
  out of order, or the precision between them is used up, as it is when they are one
  quantum apart), it fails with \<^verbatim>\<open>PositionExhausted\<close>.
\<close>

fun allocate :: "rat option \<Rightarrow> rat option \<Rightarrow> error + rat" where
  "allocate None None = Inr default_key"
| "allocate None (Some next) =
     Inr (if lower_bound < next \<and> is_key ((lower_bound + next) / 2)
          then (lower_bound + next) / 2 else next - key_unit)"
| "allocate (Some prev) None = Inr (prev + key_unit)"
| "allocate (Some prev) (Some next) =
     (if prev < next \<and> is_key ((prev + next) / 2) then Inr ((prev + next) / 2)
      else Inl PositionExhausted)"





section \<open>PlaylistStore\<close>

text \<open>The state of the store: the two tables of \<^verbatim>\<open>migration.sql\<close>.\<close>

record store =
  tracks :: "Track list"
  playlistTracks :: "PlaylistTrack list"

text \<open>
  Modelled from the spec: \<^verbatim>\<open>createEntry\<close> of the persistence collaborator (section 6), the
  insertion of a row into \<^verbatim>\<open>PlaylistTrack\<close>; the backend code that issues it is not among
  the sources. What the table enforces is read off \<^verbatim>\<open>migration.sql\<close>: the primary key on
  \<^verbatim>\<open>id\<close>, the unique index \<^verbatim>\<open>PlaylistTrack_trackId_key\<close> on \<^verbatim>\<open>trackId\<close> and the foreign
  key \<^verbatim>\<open>PlaylistTrack_trackId_fkey\<close> into \<^verbatim>\<open>Track\<close>. A rejected row leaves the table as
  it was.
\<close>

definition createEntry :: "PlaylistTrack \<Rightarrow> store \<Rightarrow> error + store" where
  "createEntry r s =
     (if pt_id r \<in> set (map pt_id (playlistTracks s)) then Inl ConstraintViolation
      else if trackId r \<in> set (map trackId (playlistTracks s)) then Inl DuplicateTrack
      else if trackId r \<notin> set (map t_id (tracks s)) then Inl NotFound
      else Inr (s\<lparr>playlistTracks := playlistTracks s @ [r]\<rparr>))"

text \<open>Modelled from the spec: looking up, updating and deleting the row with a given
  identity (\<^verbatim>\<open>updateEntry\<close> and \<^verbatim>\<open>deleteEntry\<close> of the persistence collaborator).\<close>

definition findEntry :: "store \<Rightarrow> string \<Rightarrow> PlaylistTrack option" where
  "findEntry s i = find (\<lambda>e. pt_id e = i) (playlistTracks s)"

definition updateEntry :: "string \<Rightarrow> (PlaylistTrack \<Rightarrow> PlaylistTrack) \<Rightarrow> store \<Rightarrow> store" where
  "updateEntry i f s =
     s\<lparr>playlistTracks := map (\<lambda>e. if pt_id e = i then f e else e) (playlistTracks s)\<rparr>"

definition deleteEntry :: "string \<Rightarrow> store \<Rightarrow> store" where
  "deleteEntry i s = s\<lparr>playlistTracks := filter (\<lambda>e. pt_id e \<noteq> i) (playlistTracks s)\<rparr>"

text \<open>Modelled from the spec: \<^verbatim>\<open>snapshot()\<close>, the playlist by ascending key (the route
  handlers of the backend are not among the sources; this and the operations below are
  those of section 4.2 of the spec).\<close>

definition snapshot :: "store \<Rightarrow> PlaylistTrack list" where
  "snapshot s = sort_key position (playlistTracks s)"

definition last_key :: "store \<Rightarrow> rat option" where
  "last_key s = (case snapshot s of [] \<Rightarrow> None | e # es \<Rightarrow> Some (position (last (e # es))))"

text \<open>
  Modelled from the spec: \<^verbatim>\<open>add(trackId, addedByLabel)\<close>. It fails with
  \<^verbatim>\<open>DuplicateTrack\<close> if the track is already in the playlist; otherwise the key is
  allocated after the current last entry and the row is inserted, with the column
  defaults of the table. The identity \<open>newId\<close> and the clock reading \<open>now\<close> come from the
  persistence layer. Every operation returns the state after it and its outcome.
\<close>

definition add ::
  "store \<Rightarrow> string \<Rightarrow> string \<Rightarrow> string \<Rightarrow> nat \<Rightarrow> store \<times> (error + PlaylistTrack)" where
  "add s tid addedByLabel newId now =
     (if tid \<in> set (map trackId (playlistTracks s)) then (s, Inl DuplicateTrack)
      else
        (case allocate (last_key s) None of
           Inl e \<Rightarrow> (s, Inl e)
         | Inr k \<Rightarrow>
             let r = \<lparr> pt_id = newId, trackId = tid, position = k, votes = 0,
                       addedBy = addedByLabel, addedAt = now, isPlaying = False,
                       playedAt = None \<rparr>
             in (case createEntry r s of
                   Inl e \<Rightarrow> (s, Inl e)
                 | Inr s' \<Rightarrow> (s', Inr r))))"

text \<open>Modelled from the spec: \<^verbatim>\<open>vote(entryId, direction)\<close>, the tally up or down by
  exactly 1, without floor or ceiling.\<close>

definition vote :: "store \<Rightarrow> string \<Rightarrow> direction \<Rightarrow> store \<times> (error + PlaylistTrack)" where
  "vote s i dir =
     (case findEntry s i of
        None \<Rightarrow> (s, Inl NotFound)
      | Some e \<Rightarrow>
          let f = (\<lambda>x. x\<lparr>votes := votes x + (case dir of Up \<Rightarrow> 1 | Down \<Rightarrow> - 1)\<rparr>)
          in (updateEntry i f s, Inr (f e)))"

text \<open>
  Modelled from the spec: \<^verbatim>\<open>setPlaying(entryId)\<close>. On the entry that is already playing
  it changes nothing. Otherwise, in one step, the flag is cleared on every other entry and
  set on the target, together with a fresh played-at timestamp.
\<close>

definition setPlaying :: "store \<Rightarrow> string \<Rightarrow> nat \<Rightarrow> store \<times> (error + PlaylistTrack)" where
  "setPlaying s i now =
     (case findEntry s i of
        None \<Rightarrow> (s, Inl NotFound)
      | Some e \<Rightarrow>
          if isPlaying e then (s, Inr e)
          else
            let start = (\<lambda>x. x\<lparr>isPlaying := True, playedAt := Some now\<rparr>)
            in (s\<lparr>playlistTracks :=
                    map (\<lambda>x. if pt_id x = i then start x else x\<lparr>isPlaying := False\<rparr>)
                      (playlistTracks s)\<rparr>,
                Inr (start e)))"

text \<open>Modelled from the spec: \<^verbatim>\<open>remove(entryId)\<close>, which deletes the entry and touches no
  other row.\<close>

definition remove :: "store \<Rightarrow> string \<Rightarrow> store \<times> (error + unit)" where
  "remove s i =
     (case findEntry s i of
        None \<Rightarrow> (s, Inl NotFound)
      | Some e \<Rightarrow> (deleteEntry i s, Inr ()))"

text \<open>Modelled from the spec: the rebalance, which gives every entry a fresh key, evenly
  spaced by one unit, in the current display order.\<close>

definition rebalance :: "store \<Rightarrow> store" where
  "rebalance s =
     s\<lparr>playlistTracks :=
         map (\<lambda>(n, e). e\<lparr>position := of_nat (n + 1) * key_unit\<rparr>) (enumerate 0 (snapshot s))\<rparr>"

text \<open>
  Modelled from the spec: \<^verbatim>\<open>reorder(entryId, newPrevId|null, newNextId|null)\<close>. It fails
  with \<^verbatim>\<open>NotFound\<close> if the entry or a named neighbour does not exist. The key is allocated
  between the neighbours' keys; on \<^verbatim>\<open>PositionExhausted\<close> the store is rebalanced and the
  allocation retried once, with the neighbours' new keys. A second failure is the
  failure of the operation, which then leaves the store as it was.
\<close>

definition neighbour_key :: "store \<Rightarrow> string option \<Rightarrow> error + rat option" where
  "neighbour_key s n =
     (case n of
        None \<Rightarrow> Inr None
      | Some j \<Rightarrow> (case findEntry s j of None \<Rightarrow> Inl NotFound | Some e \<Rightarrow> Inr (Some (position e))))"

definition allocate_between :: "store \<Rightarrow> string option \<Rightarrow> string option \<Rightarrow> error + rat" where
  "allocate_between s newPrevId newNextId =
     (case neighbour_key s newPrevId of
        Inl e \<Rightarrow> Inl e
      | Inr prev \<Rightarrow>
          (case neighbour_key s newNextId of
             Inl e \<Rightarrow> Inl e
           | Inr next \<Rightarrow> allocate prev next))"

definition move_to :: "store \<Rightarrow> string \<Rightarrow> rat \<Rightarrow> store \<times> (error + PlaylistTrack)" where
  "move_to s i k =
     (case findEntry s i of
        None \<Rightarrow> (s, Inl NotFound)
      | Some e \<Rightarrow> (updateEntry i (\<lambda>x. x\<lparr>position := k\<rparr>) s, Inr (e\<lparr>position := k\<rparr>)))"

definition reorder ::
  "store \<Rightarrow> string \<Rightarrow> string option \<Rightarrow> string option \<Rightarrow> store \<times> (error + PlaylistTrack)" where
  "reorder s i newPrevId newNextId =
     (case findEntry s i of
        None \<Rightarrow> (s, Inl NotFound)
      | Some e \<Rightarrow>
          (case allocate_between s newPrevId newNextId of
             Inr k \<Rightarrow> move_to s i k
           | Inl PositionExhausted \<Rightarrow>
               (case allocate_between (rebalance s) newPrevId newNextId of
                  Inr k \<Rightarrow> move_to (rebalance s) i k
                | Inl err \<Rightarrow> (s, Inl err))
           | Inl err \<Rightarrow> (s, Inl err)))"

text \<open>Modelled from the spec: the five mutations as requests, and the store after a
  sequence of them. The store serves them one at a time (section 5); a failed request
  leaves the store as it was, and the next one is served.\<close>

datatype request =
    Add string string string nat
  | Reorder string "string option" "string option"
  | Vote string direction
  | SetPlaying string nat
  | Remove string

fun serve :: "store \<Rightarrow> request \<Rightarrow> store" where
  "serve s (Add tid addedByLabel newId now) = fst (add s tid addedByLabel newId now)"
| "serve s (Reorder i newPrevId newNextId) = fst (reorder s i newPrevId newNextId)"
| "serve s (Vote i dir) = fst (vote s i dir)"
| "serve s (SetPlaying i now) = fst (setPlaying s i now)"
| "serve s (Remove i) = fst (remove s i)"

definition serve_all :: "store \<Rightarrow> request list \<Rightarrow> store" where
  "serve_all s rs = foldl serve s rs"

text \<open>Modelled from the spec: the entries that are playing, and two invariants of the data
  model: identities are unique (the primary key of the table), and at most one entry is
  playing.\<close>

definition playing :: "store \<Rightarrow> PlaylistTrack list" where
  "playing s = filter isPlaying (playlistTracks s)"

definition unique_ids :: "store \<Rightarrow> bool" where
  "unique_ids s = distinct (map pt_id (playlistTracks s))"

definition at_most_one_playing :: "store \<Rightarrow> bool" where
  "at_most_one_playing s = (length (playing s) \<le> 1)"

text \<open>Sample data for the closed instances below.\<close>

definition sample_entry :: "string \<Rightarrow> string \<Rightarrow> rat \<Rightarrow> bool \<Rightarrow> PlaylistTrack" where
  "sample_entry i tid k pl =
     \<lparr> pt_id = i, trackId = tid, position = k, votes = 0, addedBy = ''Anonymous'',
       addedAt = 0, isPlaying = pl, playedAt = (if pl then Some 0 else None) \<rparr>"

definition sample_store :: "PlaylistTrack list \<Rightarrow> store" where
  "sample_store es =
     \<lparr> tracks = [sample_track ''t1'' 180, sample_track ''t2'' 200, sample_track ''t3'' 240],
       playlistTracks = es \<rparr>"

section \<open>Properties of the allocator\<close>

subsection \<open>Keys and single allocations\<close>












subsection \<open>Insertion into a list of keys\<close>










subsection \<open>Exhaustion\<close>



section \<open>Properties of the store\<close>

lemma findEntry_SomeD:
  "findEntry s i = Some e \<Longrightarrow> e \<in> set (playlistTracks s) \<and> pt_id e = i"
  by (auto simp: findEntry_def find_Some_iff)

lemma findEntry_None_iff:
  "findEntry s i = None \<longleftrightarrow> i \<notin> set (map pt_id (playlistTracks s))"
  by (auto simp: findEntry_def find_None_iff)



lemma filter_keeps_others:
  "a \<notin> f ` set xs \<Longrightarrow> filter (\<lambda>x. f x \<noteq> a) xs = xs"
  by (induction xs) auto


lemma filter_out_unique:
  assumes "distinct (map f (xs @ e # ys))"
  shows "filter (\<lambda>x. f x \<noteq> f e) (xs @ e # ys) = xs @ ys"
proof -
  from assms have 1: "f e \<notin> f ` set xs" and 2: "f e \<notin> f ` set ys"
    by auto
  have "filter (\<lambda>x. f x \<noteq> f e) xs = xs" 
    using 1 by (rule filter_keeps_others)
  moreover have "filter (\<lambda>x. f x \<noteq> f e) ys = ys"
    using 2 by (rule filter_keeps_others)
  ultimately show ?thesis
    by simp
qed

subsection \<open>Adding a track twice\<close>

text \<open>
  C3. If the track is already referenced by an entry, \<open>add\<close> fails with \<open>DuplicateTrack\<close>
  and returns the store it was given; the table rejects every row with that track
  reference as well. When \<open>add\<close> succeeds, the track was not in the playlist before, and
  the new entry, which references it, is the only change. So \<open>add\<close> keeps the track
  references of the playlist distinct.
\<close>

theorem add_duplicate_track:
  "(tid \<in> set (map trackId (playlistTracks s)) \<longrightarrow>
       add s tid addedByLabel newId now = (s, Inl DuplicateTrack)
     \<and> (\<forall>r. trackId r = tid \<longrightarrow> isl (createEntry r s)))
   \<and> (\<forall>s' e. add s tid addedByLabel newId now = (s', Inr e) \<longrightarrow>
         tid \<notin> set (map trackId (playlistTracks s))
       \<and> playlistTracks s' = playlistTracks s @ [e] \<and> trackId e = tid)
   \<and> (distinct (map trackId (playlistTracks s)) \<longrightarrow>
         distinct (map trackId (playlistTracks (fst (add s tid addedByLabel newId now)))))"
  by (cases "last_key s")
     (auto simp: add_def createEntry_def Let_def split: sum.splits if_splits)

theorem add_duplicate_track_witness:
  "''t1'' \<in> set (map trackId (playlistTracks (sample_store [sample_entry ''e1'' ''t1'' 1 False])))
   \<and> add (sample_store [sample_entry ''e1'' ''t1'' 1 False]) ''t1'' ''Bob'' ''e2'' 7
       = (sample_store [sample_entry ''e1'' ''t1'' 1 False], Inl DuplicateTrack)
   \<and> add (sample_store [sample_entry ''e1'' ''t1'' 1 False]) ''t2'' ''Bob'' ''e2'' 7
       = (sample_store [sample_entry ''e1'' ''t1'' 1 False,
            \<lparr> pt_id = ''e2'', trackId = ''t2'', position = 2, votes = 0, addedBy = ''Bob'',
              addedAt = 7, isPlaying = False, playedAt = None \<rparr>],
          Inr \<lparr> pt_id = ''e2'', trackId = ''t2'', position = 2, votes = 0, addedBy = ''Bob'',
              addedAt = 7, isPlaying = False, playedAt = None \<rparr>)
   \<and> ''t2'' \<notin> set (map trackId (playlistTracks (sample_store [sample_entry ''e1'' ''t1'' 1 False])))"
proof -
  let ?S = "sample_store [sample_entry ''e1'' ''t1'' 1 False]"
  let ?e = "\<lparr> pt_id = ''e2'', trackId = ''t2'', position = 2, votes = 0, addedBy = ''Bob'',
              addedAt = 7, isPlaying = False, playedAt = None \<rparr>"
  have present: "''t1'' \<in> set (map trackId (playlistTracks ?S))"
    by (simp add: sample_store_def sample_entry_def)
  from add_duplicate_track [of "''t1''" ?S "''Bob''" "''e2''" 7] present
  have dup: "add ?S ''t1'' ''Bob'' ''e2'' 7 = (?S, Inl DuplicateTrack)"
    by blast
  have ok: "add ?S ''t2'' ''Bob'' ''e2'' 7
      = (sample_store [sample_entry ''e1'' ''t1'' 1 False, ?e], Inr ?e)"
    by (simp add: add_def createEntry_def last_key_def snapshot_def sample_store_def
        sample_entry_def sample_track_def key_unit_def Let_def)
  from add_duplicate_track [of "''t2''" ?S "''Bob''" "''e2''" 7] ok
  have new: "''t2'' \<notin> set (map trackId (playlistTracks ?S))"
    by blast
  from present dup ok new show ?thesis
    by blast
qed

subsection \<open>Removing an entry\<close>

text \<open>
  C5. In a store with unique identities that holds the entry \<open>e\<close> under the identity \<open>X\<close>,
  \<open>remove\<close> succeeds and the table after it is the table before with \<open>e\<close> taken out: the
  rows before and after it are the same records in the same order (keys and all other
  fields), and the row count is smaller by exactly 1. If no entry has the identity,
  \<open>remove\<close> fails with \<open>NotFound\<close> and returns the store it was given. On the client,
  \<^verbatim>\<open>handleRemove\<close> sends the one request and leaves the local playlist, hence every
  entry's key, as it is.
\<close>

theorem remove_only_target:
  "(\<forall>e. unique_ids s \<and> findEntry s X = Some e \<longrightarrow>
      (\<exists>before after. playlistTracks s = before @ e # after
          \<and> remove s X = (s\<lparr>playlistTracks := before @ after\<rparr>, Inr ()))
      \<and> length (playlistTracks (fst (remove s X))) + 1 = length (playlistTracks s))
   \<and> (findEntry s X = None \<longrightarrow> remove s X = (s, Inl NotFound))
   \<and> fst (handleRemove request_ok p localPlaylist X) = localPlaylist
   \<and> filter is_request (snd (handleRemove request_ok p localPlaylist X)) = [ApiRemove X]"
proof (intro conjI allI impI)
  fix e
  assume a: "unique_ids s \<and> findEntry s X = Some e"
  then have found: "findEntry s X = Some e" and uniq: "distinct (map pt_id (playlistTracks s))"
    by (simp_all add: unique_ids_def)
  from found have mem: "e \<in> set (playlistTracks s)" and idx: "pt_id e = X"
    using findEntry_SomeD by blast+
  from mem obtain before after where split: "playlistTracks s = before @ e # after"
    by (auto dest: split_list)
  have "filter (\<lambda>x. pt_id x \<noteq> pt_id e) (before @ e # after) = before @ after"
    by (rule filter_out_unique) (use uniq split in simp)
  then have del: "deleteEntry X s = s\<lparr>playlistTracks := before @ after\<rparr>"
    unfolding deleteEntry_def split idx by simp
  have r: "remove s X = (s\<lparr>playlistTracks := before @ after\<rparr>, Inr ())"
    unfolding remove_def found del by simp
  with split show "\<exists>before after. playlistTracks s = before @ e # after
          \<and> remove s X = (s\<lparr>playlistTracks := before @ after\<rparr>, Inr ())"
    by blast
  have "length (playlistTracks s) = length before + length after + 1"
    unfolding split by simp
  then show "length (playlistTracks (fst (remove s X))) + 1 = length (playlistTracks s)"
    unfolding r by simp
next
  assume "findEntry s X = None"
  then show "remove s X = (s, Inl NotFound)"
    by (simp add: remove_def)
next
  show "fst (handleRemove request_ok p localPlaylist X) = localPlaylist"
    by (simp add: handleRemove_def)
  show "filter is_request (snd (handleRemove request_ok p localPlaylist X)) = [ApiRemove X]"
    by (simp add: handleRemove_def call_onUpdate_def)
qed

theorem remove_only_target_witness:
  "unique_ids (sample_store [sample_entry ''e1'' ''t1'' 1 False, sample_entry ''e2'' ''t2'' 2 True])
   \<and> findEntry (sample_store [sample_entry ''e1'' ''t1'' 1 False, sample_entry ''e2'' ''t2'' 2 True])
        ''e1'' = Some (sample_entry ''e1'' ''t1'' 1 False)
   \<and> length (playlistTracks (fst (remove
        (sample_store [sample_entry ''e1'' ''t1'' 1 False, sample_entry ''e2'' ''t2'' 2 True]) ''e1''))) + 1
      = length (playlistTracks
        (sample_store [sample_entry ''e1'' ''t1'' 1 False, sample_entry ''e2'' ''t2'' 2 True]))
   \<and> remove (sample_store [sample_entry ''e1'' ''t1'' 1 False, sample_entry ''e2'' ''t2'' 2 True]) ''e1''
      = (sample_store [sample_entry ''e2'' ''t2'' 2 True], Inr ())
   \<and> findEntry (sample_store [sample_entry ''e1'' ''t1'' 1 False, sample_entry ''e2'' ''t2'' 2 True])
        ''e9'' = None
   \<and> remove (sample_store [sample_entry ''e1'' ''t1'' 1 False, sample_entry ''e2'' ''t2'' 2 True]) ''e9''
      = (sample_store [sample_entry ''e1'' ''t1'' 1 False, sample_entry ''e2'' ''t2'' 2 True],
         Inl NotFound)"
proof -
  let ?a = "sample_entry ''e1'' ''t1'' 1 False" and ?b = "sample_entry ''e2'' ''t2'' 2 True"
  let ?S = "sample_store [?a, ?b]"
  have uniq: "unique_ids ?S"
    by (simp add: unique_ids_def sample_store_def sample_entry_def)
  have found: "findEntry ?S ''e1'' = Some ?a"
    by (simp add: findEntry_def sample_store_def sample_entry_def)
  have absent: "findEntry ?S ''e9'' = None"
    by (simp add: findEntry_def sample_store_def sample_entry_def)
  from remove_only_target [of ?S "''e1''"] uniq found
  have count: "length (playlistTracks (fst (remove ?S ''e1''))) + 1 = length (playlistTracks ?S)"
    by blast
  have gone: "remove ?S ''e1'' = (sample_store [?b], Inr ())"
    by (simp add: remove_def deleteEntry_def findEntry_def sample_store_def sample_entry_def)
  from remove_only_target [of ?S "''e9''"] absent
  have missing: "remove ?S ''e9'' = (?S, Inl NotFound)"
    by blast
  from uniq found count gone absent missing show ?thesis
    by blast
qed

subsection \<open>At most one entry is playing\<close>

lemma ids_one_match:
  "distinct (map f xs) \<Longrightarrow> a \<in> set (map f xs) \<Longrightarrow> map f (filter (\<lambda>x. f x = a) xs) = [a]"
proof (induction xs)
  case Nil
  then show ?case by simp
next
  case (Cons x xs)
  show ?case
  proof (cases "f x = a")
    case True
    with Cons.prems have "\<forall>y \<in> set xs. f y \<noteq> a" by (metis distinct.simps(2) image_eqI list.simps(9) set_map)
    then have "filter (\<lambda>x. f x = a) xs = []" by (simp add: filter_empty_conv)
    with True show ?thesis by simp
  next
    case False
    with Cons show ?thesis by auto
  qed
qed

lemma setPlaying_ids:
  "map pt_id (playlistTracks (fst (setPlaying s i now))) = map pt_id (playlistTracks s)"
  by (auto simp: setPlaying_def Let_def split: option.splits)

lemma setPlaying_playing:
  assumes "unique_ids s" and "at_most_one_playing s" and "i \<in> set (map pt_id (playlistTracks s))"
  shows "map pt_id (playing (fst (setPlaying s i now))) = [i]"
proof -
  from assms(3) obtain e where e: "findEntry s i = Some e"
    using findEntry_None_iff [of s i] by (cases "findEntry s i") auto
  then have mem: "e \<in> set (playlistTracks s)" and idx: "pt_id e = i"
    using findEntry_SomeD by blast+
  show ?thesis
  proof (cases "isPlaying e")
    case True
    with mem have "e \<in> set (playing s)" by (simp add: playing_def)
    moreover from assms(2) have "length (playing s) \<le> 1" by (simp add: at_most_one_playing_def)
    ultimately have "playing s = [e]"
      by (cases "playing s") auto
    with e True idx show ?thesis by (simp add: setPlaying_def)
  next
    case False
    have "map pt_id (filter isPlaying
            (map (\<lambda>x. if pt_id x = i then x\<lparr>isPlaying := True, playedAt := Some now\<rparr>
                       else x\<lparr>isPlaying := False\<rparr>) xs))
          = map pt_id (filter (\<lambda>x. pt_id x = i) xs)" for xs :: "PlaylistTrack list"
      by (induction xs) auto
    then have "map pt_id (playing (fst (setPlaying s i now)))
        = map pt_id (filter (\<lambda>x. pt_id x = i) (playlistTracks s))"
      using e False by (simp add: setPlaying_def playing_def Let_def)
    also have "\<dots> = [i]"
      using assms(1,3) by (intro ids_one_match) (simp_all add: unique_ids_def)
    finally show ?thesis .
  qed
qed

lemma setPlaying_at_most_one:
  assumes "unique_ids s" and "at_most_one_playing s"
  shows "at_most_one_playing (fst (setPlaying s i now))"
proof (cases "findEntry s i")
  case None
  with assms(2) show ?thesis by (simp add: setPlaying_def)
next
  case (Some e)
  then have "i \<in> set (map pt_id (playlistTracks s))"
    using findEntry_None_iff [of s i] by auto
  from setPlaying_playing [OF assms this, of now]
  have "length (map pt_id (playing (fst (setPlaying s i now)))) = 1" by simp
  then show ?thesis by (simp add: at_most_one_playing_def)
qed

lemma length_playing_map:
  "(\<And>x. isPlaying (f x) = isPlaying x) \<Longrightarrow>
    length (filter isPlaying (map f xs)) = length (filter isPlaying xs)"
  by (induction xs) auto

lemma length_playing_enumerate:
  "(\<And>n x. isPlaying (g n x) = isPlaying x) \<Longrightarrow>
    length (filter isPlaying (map (\<lambda>(n, x). g n x) (enumerate k xs))) = length (filter isPlaying xs)"
  by (induction xs arbitrary: k) auto

lemma ids_enumerate:
  "(\<And>n x. pt_id (g n x) = pt_id x) \<Longrightarrow>
    map pt_id (map (\<lambda>(n, x). g n x) (enumerate k xs)) = map pt_id xs"
  by (induction xs arbitrary: k) auto

lemma rebalance_invariants:
  "unique_ids (rebalance s) = unique_ids s"
  "at_most_one_playing (rebalance s) = at_most_one_playing s"
proof -
  have "map pt_id (playlistTracks (rebalance s)) = map pt_id (sort_key position (playlistTracks s))"
    using ids_enumerate [of "\<lambda>n e. e\<lparr>position := of_nat (n + 1) * key_unit\<rparr>"]
    by (simp add: rebalance_def snapshot_def)
  then show "unique_ids (rebalance s) = unique_ids s"
    by (simp add: unique_ids_def distinct_map)
  have "length (playing (rebalance s)) = length (filter isPlaying (sort_key position (playlistTracks s)))"
    using length_playing_enumerate [of "\<lambda>n e. e\<lparr>position := of_nat (n + 1) * key_unit\<rparr>"]
    by (simp add: rebalance_def snapshot_def playing_def)
  also have "\<dots> = length (playing s)"
    by (simp add: filter_sort playing_def)
  finally show "at_most_one_playing (rebalance s) = at_most_one_playing s"
    by (simp add: at_most_one_playing_def)
qed

lemma ids_update:
  "(\<And>x. pt_id (f x) = pt_id x) \<Longrightarrow>
     map pt_id (map (\<lambda>e. if pt_id e = i then f e else e) xs) = map pt_id xs"
  by (induction xs) auto

lemma updateEntry_invariants:
  assumes "\<And>x. pt_id (f x) = pt_id x" and "\<And>x. isPlaying (f x) = isPlaying x"
  shows "unique_ids (updateEntry i f s) = unique_ids s"
    and "at_most_one_playing (updateEntry i f s) = at_most_one_playing s"
proof -
  show "unique_ids (updateEntry i f s) = unique_ids s"
    unfolding unique_ids_def updateEntry_def
    using ids_update [of f i "playlistTracks s", OF assms(1)] by (simp del: map_map)
  have "length (filter isPlaying (map (\<lambda>e. if pt_id e = i then f e else e) xs))
      = length (filter isPlaying xs)" for xs
    using assms(2) by (intro length_playing_map) simp
  then show "at_most_one_playing (updateEntry i f s) = at_most_one_playing s"
    by (simp add: at_most_one_playing_def playing_def updateEntry_def)
qed

lemma move_to_invariants:
  "unique_ids (fst (move_to s i k)) = unique_ids s"
  "at_most_one_playing (fst (move_to s i k)) = at_most_one_playing s"
  by (simp_all add: move_to_def updateEntry_invariants split: option.splits)

lemma reorder_invariants:
  "unique_ids (fst (reorder s i p n)) = unique_ids s"
  "at_most_one_playing (fst (reorder s i p n)) = at_most_one_playing s"
  by (simp_all add: reorder_def move_to_invariants rebalance_invariants
      split: option.splits sum.splits error.splits)

lemma vote_invariants:
  "unique_ids (fst (vote s i dir)) = unique_ids s"
  "at_most_one_playing (fst (vote s i dir)) = at_most_one_playing s"
  by (simp_all add: vote_def Let_def updateEntry_invariants split: option.splits)

lemma add_invariants:
  "unique_ids s \<Longrightarrow> unique_ids (fst (add s tid l newId now))"
  "at_most_one_playing s \<Longrightarrow> at_most_one_playing (fst (add s tid l newId now))"
  by (cases "last_key s";
      auto simp: add_def createEntry_def Let_def unique_ids_def at_most_one_playing_def playing_def
        split: sum.splits if_splits)+

lemma length_playing_filter:
  "length (filter (\<lambda>x. Q x \<and> isPlaying x) xs) \<le> length (filter isPlaying xs)"
  by (induction xs) auto

lemma remove_invariants:
  "unique_ids s \<Longrightarrow> unique_ids (fst (remove s i))"
  "at_most_one_playing s \<Longrightarrow> at_most_one_playing (fst (remove s i))"
proof -
  show "unique_ids s \<Longrightarrow> unique_ids (fst (remove s i))"
    by (auto simp: remove_def deleteEntry_def unique_ids_def distinct_map_filter split: option.splits)
  have "length (playing (deleteEntry i s)) \<le> length (playing s)"
    by (simp add: deleteEntry_def playing_def length_playing_filter)
  then show "at_most_one_playing s \<Longrightarrow> at_most_one_playing (fst (remove s i))"
    by (auto simp: remove_def at_most_one_playing_def split: option.splits)
qed

lemma serve_invariants:
  assumes "unique_ids s" and "at_most_one_playing s"
  shows "unique_ids (serve s r) \<and> at_most_one_playing (serve s r)"
proof (cases r)
  case (SetPlaying i now)
  have "unique_ids (fst (setPlaying s i now))"
    using assms(1) by (simp add: unique_ids_def setPlaying_ids)
  with SetPlaying setPlaying_at_most_one [OF assms] show ?thesis by simp
qed (use assms in \<open>simp_all add: add_invariants reorder_invariants vote_invariants remove_invariants\<close>)

lemma serve_all_invariants:
  "unique_ids s \<Longrightarrow> at_most_one_playing s \<Longrightarrow>
     unique_ids (serve_all s rs) \<and> at_most_one_playing (serve_all s rs)"
  unfolding serve_all_def
  by (induction rs arbitrary: s) (simp_all add: serve_invariants)

text \<open>
  C4. From a store with unique identities in which at most one entry is playing, every
  sequence of requests (served one after the other, failed ones included) leads to a
  store with the same two properties. There, \<open>setPlaying X\<close> followed by \<open>setPlaying Y\<close>,
  for two different entries of the store, leaves \<open>Y\<close> as the one entry that is playing, so
  \<open>X\<close> is not. And \<open>setPlaying X\<close> on an entry that is already playing returns the store it
  was given and the entry as it was, played-at timestamp included.
\<close>

theorem at_most_one_playing_invariant:
  assumes "unique_ids s" and "at_most_one_playing s"
  shows "at_most_one_playing (serve_all s rs) \<and> unique_ids (serve_all s rs)
    \<and> (X \<in> set (map pt_id (playlistTracks s)) \<and> Y \<in> set (map pt_id (playlistTracks s))
         \<and> X \<noteq> Y \<longrightarrow>
           map pt_id (playing (fst (setPlaying (fst (setPlaying s X t1)) Y t2))) = [Y]
         \<and> X \<notin> set (map pt_id (playing (fst (setPlaying (fst (setPlaying s X t1)) Y t2)))))
    \<and> (\<forall>e. findEntry s X = Some e \<and> isPlaying e \<longrightarrow> setPlaying s X now = (s, Inr e))"
proof (intro conjI impI allI)
  show "at_most_one_playing (serve_all s rs)" and "unique_ids (serve_all s rs)"
    using serve_all_invariants [OF assms] by simp_all
next
  assume xy: "X \<in> set (map pt_id (playlistTracks s)) \<and> Y \<in> set (map pt_id (playlistTracks s))
         \<and> X \<noteq> Y"
  let ?s1 = "fst (setPlaying s X t1)"
  have "unique_ids ?s1"
    using assms(1) by (simp add: unique_ids_def setPlaying_ids)
  moreover have "at_most_one_playing ?s1"
    using assms by (rule setPlaying_at_most_one)
  moreover have "Y \<in> set (map pt_id (playlistTracks ?s1))"
    using xy by (simp add: setPlaying_ids)
  ultimately show y: "map pt_id (playing (fst (setPlaying ?s1 Y t2))) = [Y]"
    by (rule setPlaying_playing)
  from xy show "X \<notin> set (map pt_id (playing (fst (setPlaying ?s1 Y t2))))"
    unfolding y by simp
next
  fix e
  assume "findEntry s X = Some e \<and> isPlaying e"
  then show "setPlaying s X now = (s, Inr e)"
    by (simp add: setPlaying_def)
qed

theorem at_most_one_playing_invariant_witness:
  "unique_ids (sample_store [sample_entry ''e1'' ''t1'' 1 True, sample_entry ''e2'' ''t2'' 2 False])
   \<and> at_most_one_playing
       (sample_store [sample_entry ''e1'' ''t1'' 1 True, sample_entry ''e2'' ''t2'' 2 False])
   \<and> at_most_one_playing (serve_all
       (sample_store [sample_entry ''e1'' ''t1'' 1 True, sample_entry ''e2'' ''t2'' 2 False])
       [Add ''t3'' ''Bob'' ''e3'' 5, SetPlaying ''e3'' 6, Vote ''e1'' Up,
        Reorder ''e3'' (Some ''e1'') (Some ''e2''), Remove ''e2''])
   \<and> map pt_id (playing (fst (setPlaying (fst (setPlaying
       (sample_store [sample_entry ''e1'' ''t1'' 1 True, sample_entry ''e2'' ''t2'' 2 False])
       ''e1'' 8)) ''e2'' 9))) = [''e2'']
   \<and> setPlaying
       (sample_store [sample_entry ''e1'' ''t1'' 1 True, sample_entry ''e2'' ''t2'' 2 False]) ''e1'' 8
     = (sample_store [sample_entry ''e1'' ''t1'' 1 True, sample_entry ''e2'' ''t2'' 2 False],
        Inr (sample_entry ''e1'' ''t1'' 1 True))
   \<and> map pt_id (playing (serve_all
       (sample_store [sample_entry ''e1'' ''t1'' 1 True, sample_entry ''e2'' ''t2'' 2 False])
       [Add ''t3'' ''Bob'' ''e3'' 5, SetPlaying ''e3'' 6, Vote ''e1'' Up,
        Reorder ''e3'' (Some ''e1'') (Some ''e2''), Remove ''e2''])) = [''e3'']"
proof -
  let ?a = "sample_entry ''e1'' ''t1'' 1 True" and ?b = "sample_entry ''e2'' ''t2'' 2 False"
  let ?S = "sample_store [?a, ?b]"
  let ?rs = "[Add ''t3'' ''Bob'' ''e3'' 5, SetPlaying ''e3'' 6, Vote ''e1'' Up,
        Reorder ''e3'' (Some ''e1'') (Some ''e2''), Remove ''e2'']"
  have uniq: "unique_ids ?S"
    by (simp add: unique_ids_def sample_store_def sample_entry_def)
  have one: "at_most_one_playing ?S"
    by (simp add: at_most_one_playing_def playing_def sample_store_def sample_entry_def)
  note inv = at_most_one_playing_invariant [OF uniq one, of ?rs "''e1''" "''e2''" 8 9 8]
  have ids: "''e1'' \<in> set (map pt_id (playlistTracks ?S)) \<and> ''e2'' \<in> set (map pt_id (playlistTracks ?S))
      \<and> ''e1'' \<noteq> ''e2''"
    by (simp add: sample_store_def sample_entry_def)
  have found: "findEntry ?S ''e1'' = Some ?a \<and> isPlaying ?a"
    by (simp add: findEntry_def sample_store_def sample_entry_def)
  from inv have after: "at_most_one_playing (serve_all ?S ?rs)"
    by blast
  from inv ids have switch: "map pt_id (playing (fst (setPlaying (fst (setPlaying ?S ''e1'' 8)) ''e2'' 9)))
      = [''e2'']"
    by blast
  from inv found have same: "setPlaying ?S ''e1'' 8 = (?S, Inr ?a)"
    by blast
  have final: "map pt_id (playing (serve_all ?S ?rs)) = [''e3'']"
    by (simp add: serve_all_def add_def createEntry_def last_key_def snapshot_def setPlaying_def
        vote_def reorder_def allocate_between_def neighbour_key_def move_to_def remove_def
        findEntry_def updateEntry_def deleteEntry_def playing_def Let_def
        sample_store_def sample_entry_def sample_track_def key_unit_def is_key_def
        key_precision_def)
  from uniq one after switch same final show ?thesis
    by blast
qed

section \<open>Properties of the Playlist component\<close>

lemmas drag_defs = onDragEnd_def splice_out_def splice_in_def call_onUpdate_def Let_def
  prevItem_def nextItem_def at_index_def position_or_null_def sample_item_def
  sample_props_def between_neighbours_def

subsection \<open>Dropping in place\<close>

text \<open>
  C10. A drag that ends with no destination, or with the destination index equal to the
  source index, returns at once: the local playlist is the one before, and the handler
  has no effect at all (no request, no state update, no callback).
\<close>

theorem onDragEnd_in_place_noop:
  "destination_index result = None \<or> destination_index result = Some (source_index result)
   \<Longrightarrow> onDragEnd calc request_ok p localPlaylist result = (localPlaylist, [])"
  by (auto simp: onDragEnd_def)

theorem onDragEnd_in_place_noop_witness:
  "onDragEnd (\<lambda>a b. 1) True (sample_props [sample_item ''a'' 1 180, sample_item ''b'' 2 200])
     [sample_item ''a'' 1 180, sample_item ''b'' 2 200]
     \<lparr> source_index = 1, destination_index = Some 1 \<rparr>
   = ([sample_item ''a'' 1 180, sample_item ''b'' 2 200], [])
   \<and> onDragEnd (\<lambda>a b. 1) True (sample_props [sample_item ''a'' 1 180, sample_item ''b'' 2 200])
     [sample_item ''a'' 1 180, sample_item ''b'' 2 200]
     \<lparr> source_index = 1, destination_index = None \<rparr>
   = ([sample_item ''a'' 1 180, sample_item ''b'' 2 200], [])"
  using onDragEnd_in_place_noop [of "\<lparr> source_index = 1, destination_index = Some 1 \<rparr>"]
    onDragEnd_in_place_noop [of "\<lparr> source_index = 1, destination_index = None \<rparr>"]
  by simp

subsection \<open>A failed reorder request\<close>

text \<open>
  C6. When a drag has led to a request (so it was a real reorder) and the request fails,
  the handler ends with the local playlist equal to the \<^verbatim>\<open>playlist\<close> prop, the state the
  parent received from the server before the drag. Its effects are, in order: the
  optimistic \<^verbatim>\<open>setLocalPlaylist(items)\<close>, the request, the log line, the reverting
  \<^verbatim>\<open>setLocalPlaylist(playlist)\<close> (a state update, hence a re-render) and \<^verbatim>\<open>onUpdate\<close> if
  given. What is rendered afterwards is what the server-confirmed playlist renders to; the
  optimistic array \<open>items\<close> (what a successful request would have left) is gone.
\<close>

theorem reorder_failure_reverts:
  assumes "onDragEnd calc False p localPlaylist result = (localPlaylist', effects)"
    and "\<exists>e \<in> set effects. is_request e"
  shows "localPlaylist' = playlist p
    \<and> render p localPlaylist' = render p (mount p)
    \<and> (\<exists>i k. effects =
          [SetLocalPlaylist (map Some (fst (onDragEnd calc True p localPlaylist result))),
           ApiUpdate i k, ConsoleError, SetLocalPlaylist (map Some (playlist p))]
          @ call_onUpdate p)"
  using assms
  by (auto simp: onDragEnd_def mount_def Let_def call_onUpdate_def
      split: option.splits if_splits prod.splits)

theorem reorder_failure_reverts_witness:
  "onDragEnd (\<lambda>a b. 1 / 2) False
      (sample_props [sample_item ''a'' 1 180, sample_item ''b'' 2 200])
      [sample_item ''a'' 1 180, sample_item ''b'' 2 200]
      \<lparr> source_index = 1, destination_index = Some 0 \<rparr>
    = ([sample_item ''a'' 1 180, sample_item ''b'' 2 200],
       [SetLocalPlaylist [Some (sample_item ''b'' 2 200), Some (sample_item ''a'' 1 180)],
        ApiUpdate ''b'' (1 / 2), ConsoleError,
        SetLocalPlaylist [Some (sample_item ''a'' 1 180), Some (sample_item ''b'' 2 200)],
        OnUpdate])
   \<and> fst (onDragEnd (\<lambda>a b. 1 / 2) True
      (sample_props [sample_item ''a'' 1 180, sample_item ''b'' 2 200])
      [sample_item ''a'' 1 180, sample_item ''b'' 2 200]
      \<lparr> source_index = 1, destination_index = Some 0 \<rparr>)
    = [sample_item ''b'' 2 200, sample_item ''a'' 1 180]
   \<and> render (sample_props [sample_item ''a'' 1 180, sample_item ''b'' 2 200])
        [sample_item ''a'' 1 180, sample_item ''b'' 2 200]
      = render (sample_props [sample_item ''a'' 1 180, sample_item ''b'' 2 200])
          (mount (sample_props [sample_item ''a'' 1 180, sample_item ''b'' 2 200]))"
proof -
  let ?L = "[sample_item ''a'' 1 180, sample_item ''b'' 2 200]"
  let ?R = "\<lparr> source_index = 1, destination_index = Some 0 \<rparr>"
  let ?E = "[SetLocalPlaylist [Some (sample_item ''b'' 2 200), Some (sample_item ''a'' 1 180)],
        ApiUpdate ''b'' (1 / 2), ConsoleError,
        SetLocalPlaylist [Some (sample_item ''a'' 1 180), Some (sample_item ''b'' 2 200)],
        OnUpdate]"
  have run: "onDragEnd (\<lambda>a b. 1 / 2) False (sample_props ?L) ?L ?R = (?L, ?E)"
    by (simp add: drag_defs)
  have sent: "\<exists>e \<in> set ?E. is_request e"
    by simp
  have ok: "fst (onDragEnd (\<lambda>a b. 1 / 2) True (sample_props ?L) ?L ?R)
      = [sample_item ''b'' 2 200, sample_item ''a'' 1 180]"
    by (simp add: drag_defs)
  note reverted = reorder_failure_reverts [OF run sent]
  show ?thesis
    by (intro conjI run ok conjunct1 [OF conjunct2 [OF reverted]])
qed

subsection \<open>Derived values\<close>
















subsection \<open>A neighbour at position 0\<close>

lemma zero_key_not_between:
  "\<exists>localPlaylist result d r rest k.
      sorted_wrt (<) (map item_position localPlaylist)
    \<and> destination_index result = Some d
    \<and> splice_out (source_index result) localPlaylist = (Some r, rest)
    \<and> filter is_request (snd (onDragEnd calc ok p localPlaylist result)) = [ApiUpdate (item_id r) k]
    \<and> \<not> between_neighbours (splice_in d r rest) d k"
proof (cases "0 \<le> calc None None")
  case True
  let ?a = "sample_item ''a'' 0 180" and ?b = "sample_item ''b'' 1 200"
  show ?thesis
    apply (rule exI [of _ "[?a, ?b]"])
    apply (rule exI [of _ "\<lparr> source_index = 1, destination_index = Some 0 \<rparr>"])
    apply (rule exI [of _ 0])
    apply (rule exI [of _ ?b])
    apply (rule exI [of _ "[?a]"])
    apply (rule exI [of _ "calc None None"])
    using True apply (simp add: drag_defs)
    done
next
  case False
  let ?a = "sample_item ''a'' (- 1) 180" and ?b = "sample_item ''b'' 0 200"
  show ?thesis
    apply (rule exI [of _ "[?a, ?b]"])
    apply (rule exI [of _ "\<lparr> source_index = 0, destination_index = Some 1 \<rparr>"])
    apply (rule exI [of _ 1])
    apply (rule exI [of _ ?a])
    apply (rule exI [of _ "[?b]"])
    apply (rule exI [of _ "calc None None"])
    using False apply (simp add: drag_defs)
    done
qed

text \<open>
  C9. In a reorder (a drag to another index of an item that exists), let \<open>items\<close> be the
  reordered array. If the entry before the dropped item has position 0, the one request
  sent carries \<open>calc None next\<close>: the first argument of \<^verbatim>\<open>calculatePosition\<close> is \<^verbatim>\<open>null\<close>,
  as it is when there is no entry before. Likewise for the entry after and the second
  argument. Hence no \<^verbatim>\<open>calculatePosition\<close> whatever makes the key lie between the true
  neighbours in every reorder: for each \<open>calc\<close> there is a playlist in ascending order of
  position and a drag of it whose request carries a key that is not strictly between the
  positions of the dropped item's neighbours.
\<close>

theorem zero_position_neighbour_is_null:
  assumes "destination_index result = Some d" and "source_index result \<noteq> d"
    and "splice_out (source_index result) localPlaylist = (Some r, rest)"
    and "items = splice_in d r rest"
  shows "(\<forall>e. prevItem items d = Some e \<and> item_position e = 0 \<longrightarrow>
            filter is_request (snd (onDragEnd calc ok p localPlaylist result))
              = [ApiUpdate (item_id r) (calc None (position_or_null (nextItem items d)))])
       \<and> (\<forall>e. nextItem items d = Some e \<and> item_position e = 0 \<longrightarrow>
            filter is_request (snd (onDragEnd calc ok p localPlaylist result))
              = [ApiUpdate (item_id r) (calc (position_or_null (prevItem items d)) None)])
       \<and> (\<exists>localPlaylist' result' d' r' rest' k.
              sorted_wrt (<) (map item_position localPlaylist')
            \<and> destination_index result' = Some d'
            \<and> splice_out (source_index result') localPlaylist' = (Some r', rest')
            \<and> filter is_request (snd (onDragEnd calc ok p localPlaylist' result'))
                = [ApiUpdate (item_id r') k]
            \<and> \<not> between_neighbours (splice_in d' r' rest') d' k)"
proof (intro conjI)
  show "\<forall>e. prevItem items d = Some e \<and> item_position e = 0 \<longrightarrow>
            filter is_request (snd (onDragEnd calc ok p localPlaylist result))
              = [ApiUpdate (item_id r) (calc None (position_or_null (nextItem items d)))]"
    using assms by (auto simp: onDragEnd_def Let_def call_onUpdate_def position_or_null_def)
  show "\<forall>e. nextItem items d = Some e \<and> item_position e = 0 \<longrightarrow>
            filter is_request (snd (onDragEnd calc ok p localPlaylist result))
              = [ApiUpdate (item_id r) (calc (position_or_null (prevItem items d)) None)]"
    using assms by (auto simp: onDragEnd_def Let_def call_onUpdate_def position_or_null_def)
  show "\<exists>localPlaylist' result' d' r' rest' k.
              sorted_wrt (<) (map item_position localPlaylist')
            \<and> destination_index result' = Some d'
            \<and> splice_out (source_index result') localPlaylist' = (Some r', rest')
            \<and> filter is_request (snd (onDragEnd calc ok p localPlaylist' result'))
                = [ApiUpdate (item_id r') k]
            \<and> \<not> between_neighbours (splice_in d' r' rest') d' k"
    by (rule zero_key_not_between)
qed

text \<open>The instance: in the playlist at positions 0, 1, 2 the last entry is dropped
  between the first two. The allocator used here returns \<open>next - 1\<close> for a missing first
  argument, and the key sent is 0, the position of the entry before.\<close>

theorem zero_position_neighbour_is_null_witness:
  "splice_out 2 [sample_item ''a'' 0 180, sample_item ''b'' 1 200, sample_item ''c'' 2 240]
     = (Some (sample_item ''c'' 2 240), [sample_item ''a'' 0 180, sample_item ''b'' 1 200])
   \<and> prevItem (splice_in 1 (sample_item ''c'' 2 240)
                 [sample_item ''a'' 0 180, sample_item ''b'' 1 200]) 1
     = Some (sample_item ''a'' 0 180)
   \<and> item_position (sample_item ''a'' 0 180) = 0
   \<and> filter is_request (snd (onDragEnd
        (\<lambda>prev next. case (prev, next) of
            (None, None) \<Rightarrow> 1 | (None, Some n) \<Rightarrow> n - 1 | (Some p, None) \<Rightarrow> p + 1
          | (Some p, Some n) \<Rightarrow> (p + n) / 2)
        True
        (sample_props [sample_item ''a'' 0 180, sample_item ''b'' 1 200, sample_item ''c'' 2 240])
        [sample_item ''a'' 0 180, sample_item ''b'' 1 200, sample_item ''c'' 2 240]
        \<lparr> source_index = 2, destination_index = Some 1 \<rparr>))
     = [ApiUpdate ''c'' 0]"
proof -
  let ?a = "sample_item ''a'' 0 180" and ?b = "sample_item ''b'' 1 200"
    and ?c = "sample_item ''c'' 2 240"
  let ?R = "\<lparr> source_index = 2, destination_index = Some 1 \<rparr>"
  have dst: "destination_index ?R = Some 1" and ne: "source_index ?R \<noteq> 1"
    by simp_all
  have out: "splice_out (source_index ?R) [?a, ?b, ?c] = (Some ?c, [?a, ?b])"
    by (simp add: splice_out_def)
  have prev: "prevItem (splice_in 1 ?c [?a, ?b]) 1 = Some ?a"
    by (simp add: prevItem_def splice_in_def at_index_def)
  have zero: "item_position ?a = 0"
    by (simp add: sample_item_def)
  have "nextItem (splice_in 1 ?c [?a, ?b]) 1 = Some ?b"
    by (simp add: nextItem_def splice_in_def at_index_def)
  moreover have "position_or_null (Some ?b) = Some 1"
    by (simp add: position_or_null_def sample_item_def)
  moreover have "item_id ?c = ''c''"
    by (simp add: sample_item_def)
  ultimately show ?thesis
    using zero_position_neighbour_is_null [OF dst ne out refl] prev zero out
    by simp
qed

end
